theory Spec2Isabelle
  imports Complex_Main
begin

section \<open>The particle background of the landing page\<close>

text \<open>
  The development embeds the canvas particle animation (the script whose header reads
  "Particles Background Animation"). JavaScript numbers are modelled as ideal reals
  (positions, speeds, times, opacities) and as integers where the script only counts
  (the connection counter, \<open>maxConnections\<close>, \<open>particleCount\<close>). The module
  variables of the script's closure are the fields of one state record, which every
  function takes and returns. What the browser owns and the script only talks to is
  part of that record too: the list of pending animation-frame callbacks, the
  counter their handles come from, the measured box of the container, whether the
  canvas is still attached, the painted shapes, and the value that
  \<open>window.motionUtils.getMotionScale()\<close> would return at this moment.
\<close>

subsection \<open>Configuration\<close>

record color =
  red :: nat
  green :: nat
  blue :: nat
  alpha :: real

record config =
  particleCount :: int
  maxParticleSize :: real
  minParticleSize :: real
  maxSpeed :: real
  minSpeed :: real
  connectionDistance :: real
  maxConnections :: int
  particleColor :: color
  lineColor :: color
  fps :: nat
  pauseWhenHidden :: bool

definition CONFIG :: config where
  "CONFIG = \<lparr> particleCount = 50, maxParticleSize = 3, minParticleSize = 1,
     maxSpeed = 5 / 10, minSpeed = 1 / 10,
     connectionDistance = 120, maxConnections = 3,
     particleColor = \<lparr> red = 22, green = 163, blue = 74, alpha = 6 / 10 \<rparr>,
     lineColor = \<lparr> red = 22, green = 163, blue = 74, alpha = 2 / 10 \<rparr>,
     fps = 60, pauseWhenHidden = True \<rparr>"

subsection \<open>Particles\<close>

text \<open>
  The field \<open>psize\<close> is the script's \<open>size\<close>. The six calls of
  \<open>Math.random()\<close> that \<open>reset\<close> makes are the values \<open>rnd 0\<close> to \<open>rnd 5\<close>,
  in the order of the calls.
\<close>

record particle =
  x :: real
  y :: real
  psize :: real
  speedX :: real
  speedY :: real
  opacity :: real
  connections :: int
  canvasWidth :: real
  canvasHeight :: real

definition reset :: "config \<Rightarrow> (nat \<Rightarrow> real) \<Rightarrow> particle \<Rightarrow> particle" where
  "reset cfg rnd p =
     (let speed = rnd 3 * (maxSpeed cfg - minSpeed cfg) + minSpeed cfg;
          angle = rnd 4 * pi * 2
      in p\<lparr> x := rnd 0 * canvasWidth p,
            y := rnd 1 * canvasHeight p,
            psize := rnd 2 * (maxParticleSize cfg - minParticleSize cfg) + minParticleSize cfg,
            speedX := cos angle * speed,
            speedY := sin angle * speed,
            opacity := rnd 5 * (4 / 10) + 3 / 10,
            connections := 0 \<rparr>)"

definition Particle :: "config \<Rightarrow> real \<Rightarrow> real \<Rightarrow> (nat \<Rightarrow> real) \<Rightarrow> particle" where
  "Particle cfg w h rnd =
     reset cfg rnd \<lparr> x = 0, y = 0, psize = 0, speedX = 0, speedY = 0, opacity = 0,
                     connections = 0, canvasWidth = w, canvasHeight = h \<rparr>"

text \<open>
  \<open>update\<close> in three steps, as the script has them: the two additions, the four
  edge tests in their order (each one reads what the one before has written), and
  the reset of the counter. The factor \<open>ms\<close> is the closure's constant
  \<open>motionScale\<close>.
\<close>

definition move :: "real \<Rightarrow> real \<Rightarrow> particle \<Rightarrow> particle" where
  "move ms dt p =
     p\<lparr> x := x p + speedX p * ms * dt,
        y := y p + speedY p * ms * dt \<rparr>"

definition wrap :: "particle \<Rightarrow> particle" where
  "wrap p =
     (let p1 = (if x p > canvasWidth p then p\<lparr> x := 0 \<rparr> else p);
          p2 = (if x p1 < 0 then p1\<lparr> x := canvasWidth p1 \<rparr> else p1);
          p3 = (if y p2 > canvasHeight p2 then p2\<lparr> y := 0 \<rparr> else p2);
          p4 = (if y p3 < 0 then p3\<lparr> y := canvasHeight p3 \<rparr> else p3)
      in p4)"

definition update :: "real \<Rightarrow> real \<Rightarrow> particle \<Rightarrow> particle" where
  "update ms dt p = (wrap (move ms dt p))\<lparr> connections := 0 \<rparr>"

subsection \<open>Painting\<close>

text \<open>
  What \<open>fill\<close> and \<open>stroke\<close> put on the canvas: a disc with its fill colour, centre
  and radius, or a line of width 1 with its stroke colour and its two end points. The
  colour of a shape is the configured colour with the alpha the script computes.
\<close>

datatype shape =
  Arc color real real real
| Line color real real real real

definition draw :: "config \<Rightarrow> particle \<Rightarrow> shape" where
  "draw cfg p = Arc ((particleColor cfg)\<lparr> alpha := opacity p \<rparr>) (x p) (y p) (psize p)"

definition getDistance :: "real \<Rightarrow> real \<Rightarrow> real \<Rightarrow> real \<Rightarrow> real" where
  "getDistance x1 y1 x2 y2 =
     (let dx = x2 - x1; dy = y2 - y1 in sqrt (dx * dx + dy * dy))"

text \<open>
  The inner loop of \<open>drawConnections\<close> for a fixed outer index \<open>i\<close>, from \<open>j\<close> on.
  It carries the particle array, which it updates in place, and the painted shapes.
  The outer loop calls it with \<open>i < j\<close> and \<open>i\<close> below the length, so \<open>ps ! i\<close> and
  \<open>ps ! j\<close> are the script's \<open>particles[i]\<close> and \<open>particles[j]\<close>.
\<close>

function inner :: "config \<Rightarrow> nat \<Rightarrow> nat \<Rightarrow> particle list \<times> shape list
    \<Rightarrow> particle list \<times> shape list" where
  "inner cfg i j (ps, cv) =
     (if j < length ps then
        (let p1 = ps ! i; p2 = ps ! j in
         if connections p2 \<ge> maxConnections cfg then inner cfg i (j + 1) (ps, cv)
         else
           (let distance = getDistance (x p1) (y p1) (x p2) (y p2) in
            if distance < connectionDistance cfg then
              (let opac = alpha (lineColor cfg) * (1 - distance / connectionDistance cfg);
                   ln = Line ((lineColor cfg)\<lparr> alpha := opac \<rparr>) (x p1) (y p1) (x p2) (y p2);
                   ps1 = ps[i := p1\<lparr> connections := connections p1 + 1 \<rparr>];
                   ps2 = ps1[j := (ps1 ! j)\<lparr> connections := connections (ps1 ! j) + 1 \<rparr>]
               in inner cfg i (j + 1) (ps2, cv @ [ln]))
            else inner cfg i (j + 1) (ps, cv)))
      else (ps, cv))"
  by pat_completeness auto
termination
  by (relation "measure (\<lambda>(cfg, i, j, ps, cv). length ps - j)") auto

text \<open>The outer loop, from index \<open>i\<close> on.\<close>

function outer :: "config \<Rightarrow> nat \<Rightarrow> particle list \<times> shape list
    \<Rightarrow> particle list \<times> shape list" where
  "outer cfg i (ps, cv) =
     (if i < length ps then
        (if connections (ps ! i) \<ge> maxConnections cfg then outer cfg (i + 1) (ps, cv)
         else outer cfg (i + 1) (inner cfg i (i + 1) (ps, cv)))
      else (ps, cv))"
  by pat_completeness auto

lemma inner_length: "length (fst (inner cfg i j st)) = length (fst st)"
proof (induction cfg i j st rule: inner.induct)
  case (1 cfg i j ps cv)
  show ?case
    using "1.IH" by (subst inner.simps) (simp add: Let_def)
qed

termination outer
proof (relation "measure (\<lambda>(cfg, i, ps, cv). length ps - i)", goal_cases)
  case 1
  show ?case by simp
next
  case (2 cfg i ps cv)
  then show ?case by simp
next
  case (3 cfg i ps cv)
  then show ?case
    using inner_length [of cfg i "i + 1" "(ps, cv)"] by (simp add: case_prod_beta)
qed

declare inner.simps [simp del] outer.simps [simp del]

definition drawConnections :: "config \<Rightarrow> particle list \<times> shape list
    \<Rightarrow> particle list \<times> shape list" where
  "drawConnections cfg st = outer cfg 0 st"

subsection \<open>The module state and the browser around it\<close>

text \<open>
  \<open>motionScale\<close> is the \<open>const\<close> that the script reads once, before it creates the
  canvas; \<open>motionUtils\<close> is what \<open>window.motionUtils.getMotionScale()\<close> answers now
  (\<open>None\<close> when the page has no \<open>window.motionUtils\<close>). A handle of
  \<open>requestAnimationFrame\<close> is the browser's callback counter after incrementing it,
  so it is never \<open>0\<close>. \<open>containerRect\<close> is what \<open>getBoundingClientRect\<close> answers for
  the container; of \<open>resizeCanvas\<close> only the box it returns is kept, since the pixel
  size of the canvas and the scale of its context enter no position, counter or
  colour.
\<close>

record state =
  motionScale :: real
  particles :: "particle list"
  animationFrame :: "nat option"
  isVisible :: bool
  lastFrameTime :: real
  motionUtils :: "real option"
  containerRect :: "real \<times> real"
  canvasAttached :: bool
  canvas :: "shape list"
  frameCounter :: nat
  callbacks :: "nat list"
  checkMotion :: bool
  visibilityListener :: bool

definition requestAnimationFrame :: "state \<Rightarrow> nat \<times> state" where
  "requestAnimationFrame s =
     (let h = Suc (frameCounter s)
      in (h, s\<lparr> frameCounter := h, callbacks := callbacks s @ [h] \<rparr>))"

definition cancelAnimationFrame :: "nat \<Rightarrow> state \<Rightarrow> state" where
  "cancelAnimationFrame h s = s\<lparr> callbacks := removeAll h (callbacks s) \<rparr>"

text \<open>The test \<open>if (animationFrame)\<close>: \<open>null\<close> and \<open>0\<close> are falsy.\<close>

fun truthy :: "nat option \<Rightarrow> bool" where
  "truthy None = False"
| "truthy (Some h) = (h \<noteq> 0)"

definition init :: "config \<Rightarrow> (nat \<Rightarrow> real) \<Rightarrow> state \<Rightarrow> state" where
  "init cfg rnd s =
     (let (w, h) = containerRect s;
          n = min \<lfloor>w * h / 15000\<rfloor> (particleCount cfg)
      in s\<lparr> particles := map (\<lambda>i. Particle cfg w h (\<lambda>k. rnd (6 * i + k))) [0 ..< nat n] \<rparr>)"

text \<open>The first statement of \<open>animate\<close> after the visibility test; \<open>16.67\<close> is \<open>1667 / 100\<close>.\<close>

definition deltaTime :: "real \<Rightarrow> state \<Rightarrow> real" where
  "deltaTime currentTime s = min ((currentTime - lastFrameTime s) / (1667 / 100)) 2"

definition animate :: "config \<Rightarrow> real \<Rightarrow> state \<Rightarrow> state" where
  "animate cfg currentTime s =
     (if \<not> isVisible s then s
      else
        (let dt = deltaTime currentTime s;
             ps1 = map (update (motionScale s) dt) (particles s);
             (ps2, cv) = drawConnections cfg (ps1, map (draw cfg) ps1);
             (h, s1) = requestAnimationFrame
                         (s\<lparr> lastFrameTime := currentTime, particles := ps2, canvas := cv \<rparr>)
         in s1\<lparr> animationFrame := Some h \<rparr>))"

definition start :: "real \<Rightarrow> state \<Rightarrow> state" where
  "start now s =
     (if truthy (animationFrame s) then s
      else
        (let (h, s1) = requestAnimationFrame (s\<lparr> isVisible := True, lastFrameTime := now \<rparr>)
         in s1\<lparr> animationFrame := Some h \<rparr>))"

definition stop :: "state \<Rightarrow> state" where
  "stop s =
     (let s1 = (case animationFrame s of
                  None \<Rightarrow> s
                | Some h \<Rightarrow>
                    if h \<noteq> 0 then (cancelAnimationFrame h s)\<lparr> animationFrame := None \<rparr>
                    else s)
      in s1\<lparr> isVisible := False \<rparr>)"

definition destroy :: "state \<Rightarrow> state" where
  "destroy s =
     (let s1 = stop s;
          s2 = (if canvasAttached s1 then s1\<lparr> canvasAttached := False \<rparr> else s1)
      in s2\<lparr> particles := [] \<rparr>)"

definition reinit :: "config \<Rightarrow> (nat \<Rightarrow> real) \<Rightarrow> real \<Rightarrow> state \<Rightarrow> state" where
  "reinit cfg rnd now s = start now (init cfg rnd (stop s))"

definition getParticleCount :: "state \<Rightarrow> nat" where
  "getParticleCount s = length (particles s)"

text \<open>
  The events the script listens to: the page becomes hidden or visible, the motion
  poll fires (every second), and the browser runs the oldest pending frame callback
  at time \<open>t\<close>. \<open>setMotionScale\<close> is the function of that name in the motion module
  (\<open>motion.js\<close>): it writes \<open>1\<close> or \<open>0\<close> into the style variable that
  \<open>getMotionScale\<close> reads.
\<close>

definition visibilitychange :: "bool \<Rightarrow> real \<Rightarrow> state \<Rightarrow> state" where
  "visibilitychange hidden now s =
     (if visibilityListener s then (if hidden then stop s else start now s) else s)"

definition motionPoll :: "state \<Rightarrow> state" where
  "motionPoll s =
     (if \<not> checkMotion s then s
      else
        (case motionUtils s of
           None \<Rightarrow> s
         | Some currentMotionScale \<Rightarrow>
             if currentMotionScale = 0 \<and> isVisible s
             then (destroy s)\<lparr> checkMotion := False \<rparr>
             else s))"

definition setMotionScale :: "bool \<Rightarrow> state \<Rightarrow> state" where
  "setMotionScale enabled s =
     (case motionUtils s of
        None \<Rightarrow> s
      | Some u \<Rightarrow> s\<lparr> motionUtils := Some (if enabled then 1 else 0) \<rparr>)"

definition runFrame :: "config \<Rightarrow> real \<Rightarrow> state \<Rightarrow> state" where
  "runFrame cfg t s =
     (case callbacks s of
        [] \<Rightarrow> s
      | h # hs \<Rightarrow> animate cfg t (s\<lparr> callbacks := hs \<rparr>))"

text \<open>
  The body of the script: it gives up when the container is missing or when the
  motion scale it reads is \<open>0\<close>; otherwise it attaches the canvas, declares its
  variables (\<open>declared\<close>, which also records whether the visibility listener and
  the motion poll get registered further down), initialises and starts. \<open>now0\<close> is
  \<open>Date.now()\<close> at the declaration of \<open>lastFrameTime\<close>, \<open>now\<close> the one inside
  \<open>start\<close>.
\<close>

definition declared :: "config \<Rightarrow> real \<Rightarrow> real option \<Rightarrow> real \<times> real \<Rightarrow> real \<Rightarrow> state" where
  "declared cfg ms mu rect now0 =
     \<lparr> motionScale = ms, particles = [], animationFrame = None, isVisible = True,
       lastFrameTime = now0, motionUtils = mu, containerRect = rect,
       canvasAttached = True, canvas = [], frameCounter = 0, callbacks = [],
       checkMotion = (mu \<noteq> None), visibilityListener = pauseWhenHidden cfg \<rparr>"

definition script :: "config \<Rightarrow> bool \<Rightarrow> real option \<Rightarrow> real \<times> real \<Rightarrow> (nat \<Rightarrow> real)
    \<Rightarrow> real \<Rightarrow> real \<Rightarrow> state option" where
  "script cfg hasContainer mu rect rnd now0 now =
     (if \<not> hasContainer then None
      else
        (let ms = (case mu of None \<Rightarrow> 1 | Some v \<Rightarrow> v) in
         if ms = 0 then None
         else Some (start now (init cfg rnd (declared cfg ms mu rect now0)))))"

subsection \<open>Runs of the page\<close>

text \<open>
  Everything that can happen to the module after the script has run: the calls of the
  exposed API, the listeners the script registers, a change of the motion preference
  by the user, and a frame. \<open>Resize\<close> is the debounced listener when its timer fires,
  with the box the container has by then. \<open>SetConfig\<close> carries the merge of
  \<open>Object.assign\<close> as a function on configurations; the configuration is the one
  mutable object \<open>CONFIG\<close>, so a run carries it beside the state.
\<close>

datatype event =
  Start real
| Stop
| Destroy
| Reinit "nat \<Rightarrow> real" real
| SetConfig "config \<Rightarrow> config" "nat \<Rightarrow> real" real
| Resize "real \<times> real" "nat \<Rightarrow> real" real
| Visibility bool real
| Poll
| Motion bool
| Frame real

fun handle :: "config \<times> state \<Rightarrow> event \<Rightarrow> config \<times> state" where
  "handle (cfg, s) (Start now) = (cfg, start now s)"
| "handle (cfg, s) Stop = (cfg, stop s)"
| "handle (cfg, s) Destroy = (cfg, destroy s)"
| "handle (cfg, s) (Reinit rnd now) = (cfg, reinit cfg rnd now s)"
| "handle (cfg, s) (SetConfig newConfig rnd now) = (newConfig cfg, reinit (newConfig cfg) rnd now s)"
| "handle (cfg, s) (Resize rect rnd now) = (cfg, reinit cfg rnd now (s\<lparr> containerRect := rect \<rparr>))"
| "handle (cfg, s) (Visibility hidden now) = (cfg, visibilitychange hidden now s)"
| "handle (cfg, s) Poll = (cfg, motionPoll s)"
| "handle (cfg, s) (Motion enabled) = (cfg, setMotionScale enabled s)"
| "handle (cfg, s) (Frame t) = (cfg, runFrame cfg t s)"

definition run :: "config \<times> state \<Rightarrow> event list \<Rightarrow> config \<times> state" where
  "run cs es = foldl handle cs es"

text \<open>
  The two lifecycle states a run can be in: a frame handle is held, its callback is
  the one pending callback and the loop is visible; or no handle is held, nothing is
  pending and the loop is marked invisible.
\<close>

definition Running :: "state \<Rightarrow> bool" where
  "Running s =
     (case animationFrame s of
        None \<Rightarrow> False
      | Some h \<Rightarrow> h \<noteq> 0 \<and> callbacks s = [h] \<and> isVisible s)"

definition Stopped :: "state \<Rightarrow> bool" where
  "Stopped s = (animationFrame s = None \<and> callbacks s = [] \<and> \<not> isVisible s)"

text \<open>
  What the browser promises about the inputs of a run: \<open>Math.random()\<close> answers in
  \<open>[0, 1)\<close> and a measured box has no negative side. \<open>inBox\<close> says that a particle
  lies in the closed box it was made for, \<open>boxed\<close> that all particles of a state do
  and that the container's box is a measured one.
\<close>

definition unit_range :: "(nat \<Rightarrow> real) \<Rightarrow> bool" where
  "unit_range rnd = (\<forall>k. 0 \<le> rnd k \<and> rnd k < 1)"

fun plausible :: "event \<Rightarrow> bool" where
  "plausible (Reinit rnd now) = unit_range rnd"
| "plausible (SetConfig newConfig rnd now) = unit_range rnd"
| "plausible (Resize rect rnd now) = (0 \<le> fst rect \<and> 0 \<le> snd rect \<and> unit_range rnd)"
| "plausible e = True"

definition inBox :: "particle \<Rightarrow> bool" where
  "inBox p = (0 \<le> x p \<and> x p \<le> canvasWidth p \<and> 0 \<le> y p \<and> y p \<le> canvasHeight p)"

definition boxed :: "state \<Rightarrow> bool" where
  "boxed s = (0 \<le> fst (containerRect s) \<and> 0 \<le> snd (containerRect s)
     \<and> list_all inBox (particles s))"

subsection \<open>One turn of the inner loop, and what the pass keeps\<close>

text \<open>
  \<open>pair_step\<close> is the body of the inner loop for one pair \<open>(i, j)\<close>. \<open>pass_inv\<close> is
  what holds while the inner loop of particle \<open>i\<close> is at \<open>j\<close>: the later particles
  respect the cap, particle \<open>i\<close> came in below the cap and has gained at most one
  connection per turn, and an earlier particle \<open>k\<close> is at most \<open>n - k - 2\<close> above the
  cap. \<open>pass_bound\<close> is what holds between two turns of the outer loop.
\<close>

definition pair_step :: "config \<Rightarrow> nat \<Rightarrow> nat \<Rightarrow> particle list \<times> shape list
    \<Rightarrow> particle list \<times> shape list" where
  "pair_step cfg i j st =
     (let ps = fst st; cv = snd st; p1 = ps ! i; p2 = ps ! j in
      if connections p2 \<ge> maxConnections cfg then st
      else
        (let distance = getDistance (x p1) (y p1) (x p2) (y p2) in
         if distance < connectionDistance cfg then
           (let opac = alpha (lineColor cfg) * (1 - distance / connectionDistance cfg);
                ln = Line ((lineColor cfg)\<lparr> alpha := opac \<rparr>) (x p1) (y p1) (x p2) (y p2);
                ps1 = ps[i := p1\<lparr> connections := connections p1 + 1 \<rparr>];
                ps2 = ps1[j := (ps1 ! j)\<lparr> connections := connections (ps1 ! j) + 1 \<rparr>]
            in (ps2, cv @ [ln]))
         else st))"

definition pass_inv :: "config \<Rightarrow> nat \<Rightarrow> nat \<Rightarrow> particle list \<times> shape list \<Rightarrow> bool" where
  "pass_inv cfg i j st =
     (let ps = fst st; n = length ps; M = maxConnections cfg in
      i < n \<and> j \<le> n
      \<and> (\<forall>k<n. i < k \<longrightarrow> connections (ps ! k) \<le> M)
      \<and> connections (ps ! i) \<le> M + (int j - int i - 2)
      \<and> (\<forall>k<i. connections (ps ! k) \<le> M + max 0 (int n - int k - 2)))"

definition pass_bound :: "config \<Rightarrow> nat \<Rightarrow> particle list \<Rightarrow> bool" where
  "pass_bound cfg i ps =
     (let n = length ps; M = maxConnections cfg in
      (\<forall>k<n. i \<le> k \<longrightarrow> connections (ps ! k) \<le> M)
      \<and> (\<forall>k<n. k < i \<longrightarrow> connections (ps ! k) \<le> M + max 0 (int n - int k - 2)))"

subsection \<open>Concrete pages\<close>

text \<open>
  A particle on the line \<open>y = 0\<close> of a 300 by 250 box, as \<open>reset\<close> makes it when
  \<open>Math.random()\<close> answers \<open>0\<close> for size, speed, angle and opacity; and a random
  source that puts the \<open>i\<close>-th particle of such a box at \<open>x = 10 * i\<close>.
\<close>

definition pt :: "real \<Rightarrow> int \<Rightarrow> particle" where
  "pt u c = \<lparr> x = u, y = 0, psize = 1, speedX = 1 / 10, speedY = 0, opacity = 3 / 10,
              connections = c, canvasWidth = 300, canvasHeight = 250 \<rparr>"

definition row :: "nat \<Rightarrow> real" where
  "row k = (if k mod 6 = 0 then real (k div 6 mod 30) / 30 else 0)"

text \<open>
  The page right after the script has run in a 300 by 250 box (five particles) with
  the motion preference on, \<open>Date.now()\<close> being \<open>1000\<close> inside \<open>start\<close>.
\<close>

definition loaded :: state where
  "loaded = start 1000 (init CONFIG row (declared CONFIG 1 (Some 1) (300, 250) 0))"

section \<open>Auxiliary facts\<close>

lemma getDistance_horizontal: "getDistance u w v w = \<bar>v - u\<bar>"
  by (simp add: getDistance_def)

lemma wrap_bounds:
  "0 \<le> canvasWidth p \<Longrightarrow> 0 \<le> canvasHeight p \<Longrightarrow>
   0 \<le> x (wrap p) \<and> x (wrap p) \<le> canvasWidth p \<and>
   0 \<le> y (wrap p) \<and> y (wrap p) \<le> canvasHeight p"
  by (simp add: wrap_def Let_def)

text \<open>
  Particles start inside their box and stay there, edges included, and they keep the
  box they were made for.
\<close>

lemma Particle_inside:
  assumes "0 \<le> w" "0 \<le> h" "0 \<le> rnd 0" "rnd 0 < 1" "0 \<le> rnd 1" "rnd 1 < 1"
  shows "0 \<le> x (Particle cfg w h rnd) \<and> x (Particle cfg w h rnd) \<le> canvasWidth (Particle cfg w h rnd)
       \<and> 0 \<le> y (Particle cfg w h rnd) \<and> y (Particle cfg w h rnd) \<le> canvasHeight (Particle cfg w h rnd)"
  using assms by (simp add: Particle_def reset_def Let_def mult_left_le_one_le)

lemma update_box:
  "canvasWidth (update ms dt p) = canvasWidth p \<and> canvasHeight (update ms dt p) = canvasHeight p"
  by (simp add: update_def move_def wrap_def Let_def)

lemma update_inside:
  "0 \<le> canvasWidth p \<Longrightarrow> 0 \<le> canvasHeight p \<Longrightarrow>
   0 \<le> x (update ms dt p) \<and> x (update ms dt p) \<le> canvasWidth (update ms dt p) \<and>
   0 \<le> y (update ms dt p) \<and> y (update ms dt p) \<le> canvasHeight (update ms dt p)"
  using wrap_bounds [of "move ms dt p"] by (simp add: update_def move_def wrap_def Let_def)

subsection \<open>The connection pass changes nothing but the counters\<close>

lemma map_update_same:
  assumes "f v = f (ps ! i)"
  shows "map f (ps[i := v]) = map f ps"
proof (cases "i < length ps")
  case True
  with assms show ?thesis by (simp add: map_update list_update_same_conv)
next
  case False
  then show ?thesis by (simp add: list_update_beyond)
qed

lemma inner_keeps:
  assumes "\<And>p c. f (p\<lparr> connections := c \<rparr>) = f p"
  shows "map f (fst (inner cfg i j st)) = map f (fst st)"
proof (induction cfg i j st rule: inner.induct)
  case (1 cfg i j ps cv)
  show ?case
    using "1.IH" by (subst inner.simps) (simp add: Let_def map_update_same assms)
qed

lemma outer_keeps:
  assumes "\<And>p c. f (p\<lparr> connections := c \<rparr>) = f p"
  shows "map f (fst (outer cfg i st)) = map f (fst st)"
proof (induction cfg i st rule: outer.induct)
  case (1 cfg i ps cv)
  show ?case
    using "1.IH" inner_keeps [of f cfg i "i + 1" "(ps, cv)", OF assms]
    by (subst outer.simps) simp
qed

lemma animate_keeps:
  assumes "\<And>p c. f (p\<lparr> connections := c \<rparr>) = f p" and "isVisible s"
  shows "map f (particles (animate cfg t s))
       = map (\<lambda>p. f (update (motionScale s) (deltaTime t s) p)) (particles s)"
proof -
  let ?ps1 = "map (update (motionScale s) (deltaTime t s)) (particles s)"
  have "particles (animate cfg t s) = fst (drawConnections cfg (?ps1, map (draw cfg) ?ps1))"
    using assms(2)
    by (simp add: animate_def Let_def requestAnimationFrame_def split: prod.splits)
  then show ?thesis
    using outer_keeps [of f cfg 0 "(?ps1, map (draw cfg) ?ps1)", OF assms(1)]
    by (simp add: drawConnections_def comp_def)
qed

lemma animate_nth:
  assumes "\<And>p c. f (p\<lparr> connections := c \<rparr>) = f p" and "isVisible s"
    and "i < length (particles s)"
  shows "f (particles (animate cfg t s) ! i)
       = f (update (motionScale s) (deltaTime t s) (particles s ! i))"
proof -
  have m: "map f (particles (animate cfg t s))
       = map (\<lambda>p. f (update (motionScale s) (deltaTime t s) p)) (particles s)"
    using animate_keeps [of f s cfg t] assms(1,2) by blast
  then have "length (particles (animate cfg t s)) = length (particles s)"
    by (metis length_map)
  with assms(3) have "map f (particles (animate cfg t s)) ! i = f (particles (animate cfg t s) ! i)"
    by simp
  with m assms(3) show ?thesis by simp
qed

subsection \<open>No run changes the motion scale the script has read\<close>

lemma motionScale_animate: "motionScale (animate cfg t s) = motionScale s"
  by (simp add: animate_def Let_def requestAnimationFrame_def split: prod.splits)

lemma motionScale_start: "motionScale (start t s) = motionScale s"
  by (simp add: start_def Let_def requestAnimationFrame_def)

lemma motionScale_stop: "motionScale (stop s) = motionScale s"
  by (simp add: stop_def Let_def cancelAnimationFrame_def split: option.splits)

lemma motionScale_destroy: "motionScale (destroy s) = motionScale s"
  by (simp add: destroy_def Let_def motionScale_stop)

lemma motionScale_init: "motionScale (init cfg rnd s) = motionScale s"
  by (simp add: init_def Let_def split: prod.splits)

lemma motionScale_reinit: "motionScale (reinit cfg rnd now s) = motionScale s"
  by (simp add: reinit_def motionScale_start motionScale_init motionScale_stop)

lemma motionScale_handle: "motionScale (snd (handle cs e)) = motionScale (snd cs)"
proof (cases cs)
  case (Pair cfg s)
  then show ?thesis
    by (cases e)
       (simp_all add: motionScale_start motionScale_stop motionScale_destroy motionScale_reinit
          motionScale_animate visibilitychange_def motionPoll_def setMotionScale_def
          runFrame_def split: option.splits list.splits)
qed

lemma motionScale_run: "motionScale (snd (run cs es)) = motionScale (snd cs)"
  unfolding run_def
proof (induction es arbitrary: cs)
  case Nil
  show ?case by simp
next
  case (Cons e es)
  show ?case using Cons.IH [of "handle cs e"] by (simp add: motionScale_handle)
qed

lemma motionScale_script:
  assumes "script cfg hc mu rect rnd now0 now = Some s"
  shows "motionScale s = (case mu of None \<Rightarrow> 1 | Some v \<Rightarrow> v)"
proof -
  from assms
  have "s = start now (init cfg rnd (declared cfg (case mu of None \<Rightarrow> 1 | Some v \<Rightarrow> v) mu rect now0))"
    by (simp add: script_def Let_def split: if_splits)
  then show ?thesis
    by (simp add: motionScale_start motionScale_init declared_def)
qed

subsection \<open>Every run is Running or Stopped\<close>

lemma Running_truthy: "Running s \<Longrightarrow> truthy (animationFrame s)"
  by (cases "animationFrame s") (simp_all add: Running_def)

lemma state_start: "Running s \<or> Stopped s \<Longrightarrow> Running (start now s)"
proof (erule disjE)
  assume "Running s"
  then show ?thesis using Running_truthy [of s] by (simp add: start_def)
next
  assume "Stopped s"
  then show ?thesis
    by (simp add: Running_def Stopped_def start_def requestAnimationFrame_def Let_def)
qed

lemma Stopped_stop: "Running s \<or> Stopped s \<Longrightarrow> Stopped (stop s)"
proof (erule disjE)
  assume "Running s"
  then show ?thesis
    by (cases "animationFrame s")
       (simp_all add: Running_def Stopped_def stop_def Let_def cancelAnimationFrame_def)
next
  assume "Stopped s"
  then show ?thesis by (simp add: Stopped_def stop_def Let_def)
qed

lemma Stopped_destroy: "Running s \<or> Stopped s \<Longrightarrow> Stopped (destroy s)"
  using Stopped_stop [of s] by (simp add: destroy_def Let_def Stopped_def)

lemma state_init: "Running (init cfg rnd s) = Running s \<and> Stopped (init cfg rnd s) = Stopped s"
  by (simp add: init_def Let_def Running_def Stopped_def case_prod_beta split: option.splits)

lemma state_reinit: "Running s \<or> Stopped s \<Longrightarrow> Running (reinit cfg rnd now s)"
  unfolding reinit_def
  using Stopped_stop [of s] state_init [of cfg rnd "stop s"]
    state_start [of "init cfg rnd (stop s)" now]
  by blast

lemma state_runFrame:
  "Running s \<or> Stopped s \<Longrightarrow> Running (runFrame cfg t s) \<or> Stopped (runFrame cfg t s)"
proof (erule disjE)
  assume r: "Running s"
  then obtain h where h: "animationFrame s = Some h" "h \<noteq> 0" "callbacks s = [h]" "isVisible s"
    by (cases "animationFrame s") (simp_all add: Running_def)
  then have "Running (runFrame cfg t s)"
    by (simp add: runFrame_def animate_def Let_def requestAnimationFrame_def Running_def
          case_prod_beta)
  then show ?thesis ..
next
  assume "Stopped s"
  then show ?thesis by (simp add: runFrame_def Stopped_def)
qed

lemma state_handle:
  assumes "Running (snd cs) \<or> Stopped (snd cs)"
  shows "Running (snd (handle cs e)) \<or> Stopped (snd (handle cs e))"
proof (cases cs)
  case (Pair cfg s)
  with assms have s: "Running s \<or> Stopped s" by simp
  have c: "Running (s\<lparr> containerRect := rect \<rparr>) \<or> Stopped (s\<lparr> containerRect := rect \<rparr>)" for rect
    using s by (simp add: Running_def Stopped_def split: option.splits)
  show ?thesis
  proof (cases e)
    case (Start now)
    with Pair s show ?thesis using state_start [of s now] by simp
  next
    case Stop
    with Pair s show ?thesis using Stopped_stop [of s] by simp
  next
    case Destroy
    with Pair s show ?thesis using Stopped_destroy [of s] by simp
  next
    case (Reinit rnd now)
    with Pair s show ?thesis using state_reinit [of s cfg rnd now] by simp
  next
    case (SetConfig newConfig rnd now)
    with Pair s show ?thesis using state_reinit [of s "newConfig cfg" rnd now] by simp
  next
    case (Resize rect rnd now)
    with Pair show ?thesis using state_reinit [OF c, of cfg rnd now rect] by simp
  next
    case (Visibility hidden now)
    with Pair s show ?thesis
      using state_start [of s now] Stopped_stop [of s] by (simp add: visibilitychange_def)
  next
    case Poll
    have "Stopped ((destroy s)\<lparr> checkMotion := False \<rparr>)"
      using Stopped_destroy [OF s] by (simp add: Stopped_def)
    with Poll Pair s show ?thesis
      by (simp add: motionPoll_def split: option.splits)
  next
    case (Motion v)
    with Pair s show ?thesis
      by (simp add: setMotionScale_def Running_def Stopped_def split: option.splits)
  next
    case (Frame t)
    with Pair s show ?thesis
      using state_runFrame [OF s, of cfg t] by simp
  qed
qed

lemma state_run:
  "Running (snd cs) \<or> Stopped (snd cs) \<Longrightarrow> Running (snd (run cs es)) \<or> Stopped (snd (run cs es))"
  unfolding run_def
proof (induction es arbitrary: cs)
  case Nil
  then show ?case by simp
next
  case (Cons e es)
  from Cons.prems have "Running (snd (handle cs e)) \<or> Stopped (snd (handle cs e))"
    by (rule state_handle)
  then show ?case using Cons.IH [of "handle cs e"] by simp
qed

lemma state_script:
  assumes "script cfg hc mu rect rnd now0 now = Some s"
  shows "Running s"
proof -
  let ?d = "declared cfg (case mu of None \<Rightarrow> 1 | Some v \<Rightarrow> v) mu rect now0"
  from assms have "s = start now (init cfg rnd ?d)"
    by (simp add: script_def Let_def split: if_splits)
  moreover have "Stopped (init cfg rnd ?d) \<or> animationFrame (init cfg rnd ?d) = None
      \<and> callbacks (init cfg rnd ?d) = []"
    by (simp add: init_def Let_def case_prod_beta declared_def)
  ultimately show ?thesis
    by (auto simp add: Running_def Stopped_def start_def requestAnimationFrame_def Let_def)
qed

lemma script_loaded: "script CONFIG True (Some 1) (300, 250) row 0 1000 = Some loaded"
  by (simp add: script_def loaded_def)

subsection \<open>Every run keeps its particles in their boxes\<close>

lemma row_unit_range: "unit_range row"
  unfolding unit_range_def row_def
proof (intro allI)
  fix k :: nat
  have "k div 6 mod 30 < 30" by simp
  then have "real (k div 6 mod 30) < 30"
    by (metis of_nat_less_iff of_nat_numeral)
  then show "0 \<le> (if k mod 6 = 0 then real (k div 6 mod 30) / 30 else 0)
      \<and> (if k mod 6 = 0 then real (k div 6 mod 30) / 30 else 0) < 1"
    by simp
qed

lemma inBox_Particle:
  assumes "0 \<le> w" "0 \<le> h" "unit_range rnd"
  shows "inBox (Particle cfg w h (\<lambda>k. rnd (6 * i + k)))"
  using Particle_inside [of w h "\<lambda>k. rnd (6 * i + k)" cfg] assms
  by (simp add: inBox_def unit_range_def)

lemma inBox_update: "inBox p \<Longrightarrow> inBox (update ms dt p)"
  using update_inside [of p ms dt] by (simp add: inBox_def)

lemma boxed_init:
  assumes "0 \<le> fst (containerRect s)" "0 \<le> snd (containerRect s)" "unit_range rnd"
  shows "boxed (init cfg rnd s)"
  using assms
  by (simp add: boxed_def init_def Let_def case_prod_beta list_all_iff inBox_Particle)

lemma boxed_start: "boxed (start now s) = boxed s"
  by (simp add: boxed_def start_def requestAnimationFrame_def Let_def)

lemma boxed_stop: "boxed (stop s) = boxed s"
  by (simp add: boxed_def stop_def cancelAnimationFrame_def Let_def split: option.splits)

lemma boxed_destroy: "boxed s \<Longrightarrow> boxed (destroy s)"
  using boxed_stop [of s] by (simp add: boxed_def destroy_def Let_def)

lemma boxed_reinit:
  assumes "0 \<le> fst (containerRect s)" "0 \<le> snd (containerRect s)" "unit_range rnd"
  shows "boxed (reinit cfg rnd now s)"
proof -
  have "containerRect (stop s) = containerRect s"
    by (simp add: stop_def cancelAnimationFrame_def Let_def split: option.splits)
  with assms have "boxed (init cfg rnd (stop s))"
    by (simp add: boxed_init)
  then show ?thesis by (simp add: reinit_def boxed_start)
qed

lemma pass_inBox:
  "list_all inBox (fst (drawConnections cfg (ps, cv))) = list_all inBox ps"
proof -
  let ?f = "\<lambda>p. (x p, y p, canvasWidth p, canvasHeight p)"
  let ?g = "\<lambda>(a, b, w, h). 0 \<le> a \<and> a \<le> w \<and> 0 \<le> (b::real) \<and> b \<le> (h::real)"
  have g: "list_all inBox qs = list_all ?g (map ?f qs)" for qs
    by (simp add: list_all_iff inBox_def)
  have "map ?f (fst (outer cfg 0 (ps, cv))) = map ?f (fst (ps, cv))"
    by (rule outer_keeps) simp
  then show ?thesis
    by (simp add: g drawConnections_def)
qed

lemma boxed_animate: "boxed s \<Longrightarrow> boxed (animate cfg t s)"
proof (cases "isVisible s")
  case False
  assume "boxed s"
  with False show ?thesis by (simp add: animate_def)
next
  case True
  assume b: "boxed s"
  let ?ps1 = "map (update (motionScale s) (deltaTime t s)) (particles s)"
  have "particles (animate cfg t s) = fst (drawConnections cfg (?ps1, map (draw cfg) ?ps1))"
    and "containerRect (animate cfg t s) = containerRect s"
    using True
    by (simp_all add: animate_def Let_def requestAnimationFrame_def case_prod_beta)
  moreover have "list_all inBox ?ps1"
    using b by (simp add: boxed_def list_all_iff inBox_update)
  ultimately show ?thesis
    using b by (simp add: boxed_def pass_inBox)
qed

lemma boxed_handle:
  assumes "boxed (snd cs)" and "plausible e"
  shows "boxed (snd (handle cs e))"
proof (cases cs)
  case (Pair cfg s)
  with assms have b: "boxed s" by simp
  then have r: "0 \<le> fst (containerRect s)" "0 \<le> snd (containerRect s)"
    by (simp_all add: boxed_def)
  show ?thesis
  proof (cases e)
    case (Start now)
    with Pair b show ?thesis by (simp add: boxed_start)
  next
    case Stop
    with Pair b show ?thesis by (simp add: boxed_stop)
  next
    case Destroy
    with Pair b show ?thesis by (simp add: boxed_destroy)
  next
    case (Reinit rnd now)
    with Pair assms(2) r show ?thesis by (simp add: boxed_reinit)
  next
    case (SetConfig newConfig rnd now)
    with Pair assms(2) r show ?thesis by (simp add: boxed_reinit)
  next
    case (Resize rect rnd now)
    with Pair assms(2) show ?thesis by (simp add: boxed_reinit)
  next
    case (Visibility hidden now)
    with Pair b show ?thesis by (simp add: visibilitychange_def boxed_start boxed_stop)
  next
    case Poll
    have "boxed ((destroy s)\<lparr> checkMotion := False \<rparr>)"
      using boxed_destroy [OF b] by (simp add: boxed_def)
    with Poll Pair b show ?thesis
      by (simp add: motionPoll_def split: option.splits)
  next
    case (Motion enabled)
    with Pair b show ?thesis
      by (simp add: setMotionScale_def boxed_def split: option.splits)
  next
    case (Frame t)
    have "boxed (s\<lparr> callbacks := hs \<rparr>)" for hs
      using b by (simp add: boxed_def)
    then have "boxed (runFrame cfg t s)"
      using b by (simp add: runFrame_def boxed_animate split: list.splits)
    with Frame Pair show ?thesis by simp
  qed
qed

lemma boxed_run:
  "boxed (snd cs) \<Longrightarrow> list_all plausible es \<Longrightarrow> boxed (snd (run cs es))"
  unfolding run_def
proof (induction es arbitrary: cs)
  case Nil
  then show ?case by simp
next
  case (Cons e es)
  from Cons.prems have "boxed (snd (handle cs e))"
    by (simp add: boxed_handle)
  with Cons.prems show ?case using Cons.IH [of "handle cs e"] by simp
qed

lemma boxed_script:
  assumes "script cfg hc mu rect rnd now0 now = Some s"
    and "0 \<le> fst rect" and "0 \<le> snd rect" and "unit_range rnd"
  shows "boxed s"
proof -
  let ?d = "declared cfg (case mu of None \<Rightarrow> 1 | Some v \<Rightarrow> v) mu rect now0"
  from assms(1) have "s = start now (init cfg rnd ?d)"
    by (simp add: script_def Let_def split: if_splits)
  moreover have "containerRect ?d = rect"
    by (simp add: declared_def)
  ultimately show ?thesis
    using assms(2-4) by (simp add: boxed_start boxed_init)
qed

subsection \<open>How far a counter can pass the cap\<close>

lemma inner_step:
  "inner cfg i j st =
     (if j < length (fst st) then inner cfg i (j + 1) (pair_step cfg i j st) else st)"
  by (cases st) (simp add: inner.simps [of cfg i j] pair_step_def Let_def)

lemma pair_step_length: "length (fst (pair_step cfg i j st)) = length (fst st)"
  by (simp add: pair_step_def Let_def)

lemma inner_invariant:
  assumes step: "\<And>j st. Q j st \<Longrightarrow> i < j \<Longrightarrow> j < length (fst st) \<Longrightarrow> Q (j + 1) (pair_step cfg i j st)"
    and mono: "\<And>j st. Q j st \<Longrightarrow> i < j \<Longrightarrow> length (fst st) \<le> j \<Longrightarrow> R st"
  shows "Q j st \<Longrightarrow> i < j \<Longrightarrow> R (inner cfg i j st)"
proof (induction "length (fst st) - j" arbitrary: j st)
  case 0
  then have "length (fst st) \<le> j" by simp
  with 0 show ?case
    using mono [of j st] by (subst inner_step) simp
next
  case (Suc d)
  then have lt: "j < length (fst st)" by simp
  have "d = length (fst (pair_step cfg i j st)) - (j + 1)"
    using Suc.hyps(2) by (simp add: pair_step_length)
  moreover have "Q (j + 1) (pair_step cfg i j st)"
    using step [OF Suc.prems(1,2) lt] .
  moreover have "i < j + 1" using Suc.prems(2) by simp
  ultimately have "R (inner cfg i (j + 1) (pair_step cfg i j st))"
    by (rule Suc.hyps(1))
  with lt show ?case by (subst inner_step) simp
qed

lemma pair_step_inv:
  assumes "pass_inv cfg i j st" "i < j" "j < length (fst st)"
  shows "pass_inv cfg i (j + 1) (pair_step cfg i j st)"
proof (cases st)
  case (Pair ps cv)
  from assms Pair have i: "i < length ps" and j: "j < length ps" and ne: "i \<noteq> j"
    and a: "\<forall>k<length ps. i < k \<longrightarrow> connections (ps ! k) \<le> maxConnections cfg"
    and b: "connections (ps ! i) \<le> maxConnections cfg + (int j - int i - 2)"
    and c: "\<forall>k<i. connections (ps ! k) \<le> maxConnections cfg + max 0 (int (length ps) - int k - 2)"
    by (auto simp add: pass_inv_def Let_def)
  show ?thesis
    unfolding Pair pass_inv_def pair_step_def Let_def
    using i j ne assms(2) a b c
    by (auto simp add: nth_list_update)
qed

lemma inner_bound:
  assumes "pass_bound cfg i ps" and "i < length ps"
    and "\<not> connections (ps ! i) \<ge> maxConnections cfg"
  shows "pass_bound cfg (i + 1) (fst (inner cfg i (i + 1) (ps, cv)))"
proof (rule inner_invariant [where Q = "pass_inv cfg i"])
  show "pass_inv cfg i (i + 1) (ps, cv)"
    using assms by (auto simp add: pass_inv_def pass_bound_def Let_def)
  show "i < i + 1" by simp
  show "pass_inv cfg i (j + 1) (pair_step cfg i j st)"
    if "pass_inv cfg i j st" "i < j" "j < length (fst st)" for j st
    using that by (rule pair_step_inv)
  show "pass_bound cfg (i + 1) (fst st)"
    if h: "pass_inv cfg i j st" "i < j" "length (fst st) \<le> j" for j st
  proof -
    let ?n = "length (fst st)" and ?M = "maxConnections cfg"
    from h have i: "i < ?n" and jn: "j = ?n"
      and a: "\<forall>k<?n. i < k \<longrightarrow> connections (fst st ! k) \<le> ?M"
      and b: "connections (fst st ! i) \<le> ?M + (int j - int i - 2)"
      and c: "\<forall>k<i. connections (fst st ! k) \<le> ?M + max 0 (int ?n - int k - 2)"
      by (auto simp add: pass_inv_def Let_def)
    have e: "connections (fst st ! i) \<le> ?M + max 0 (int ?n - int i - 2)"
      using b jn by simp
    show ?thesis
      unfolding pass_bound_def Let_def
    proof (intro conjI allI impI)
      fix k assume "k < ?n" "i + 1 \<le> k"
      then show "connections (fst st ! k) \<le> ?M" using a by simp
    next
      fix k assume k: "k < ?n" "k < i + 1"
      show "connections (fst st ! k) \<le> ?M + max 0 (int ?n - int k - 2)"
      proof (cases "k = i")
        case True
        then show ?thesis using e by simp
      next
        case False
        with k have "k < i" by simp
        then show ?thesis using c by simp
      qed
    qed
  qed
qed

lemma outer_bound:
  "pass_bound cfg i (fst st) \<Longrightarrow> pass_bound cfg (length (fst st)) (fst (outer cfg i st))"
proof (induction cfg i st rule: outer.induct)
  case (1 cfg i ps cv)
  show ?case
  proof (cases "i < length ps")
    case False
    with "1.prems" show ?thesis
      by (subst outer.simps) (auto simp add: pass_bound_def Let_def)
  next
    case True
    show ?thesis
    proof (cases "connections (ps ! i) \<ge> maxConnections cfg")
      case c: True
      have "connections (ps ! i) \<le> maxConnections cfg"
        using "1.prems" True by (simp add: pass_bound_def Let_def)
      then have "pass_bound cfg (i + 1) ps"
        using "1.prems" True
        by (auto simp add: pass_bound_def Let_def less_Suc_eq)
      then show ?thesis
        using "1.IH"(1) [OF True c] True c by (subst outer.simps) simp
    next
      case c: False
      have b: "pass_bound cfg (i + 1) (fst (inner cfg i (i + 1) (ps, cv)))"
        using inner_bound [of cfg i ps cv] "1.prems" True c by simp
      have "pass_bound cfg (length (fst (inner cfg i (i + 1) (ps, cv))))
          (fst (outer cfg (i + 1) (inner cfg i (i + 1) (ps, cv))))"
        using "1.IH"(2) [OF True c] b by simp
      then show ?thesis
        using True c by (subst outer.simps) (simp add: inner_length)
    qed
  qed
qed

lemma pair_step_nonneg:
  assumes "\<forall>k<length (fst st). 0 \<le> connections (fst st ! k)"
    and "i < j" and "j < length (fst st)"
  shows "\<forall>k<length (fst (pair_step cfg i j st)). 0 \<le> connections (fst (pair_step cfg i j st) ! k)"
proof (cases st)
  case (Pair ps cv)
  with assms have a: "\<forall>k<length ps. 0 \<le> connections (ps ! k)"
    and i: "i < length ps" and j: "j < length ps" and ne: "i \<noteq> j"
    by simp_all
  show ?thesis
    unfolding Pair pair_step_def Let_def
    using a i j ne by (auto simp add: nth_list_update)
qed

lemma inner_nonneg:
  assumes "\<forall>k<length ps. 0 \<le> connections (ps ! k)"
  shows "\<forall>k<length (fst (inner cfg i (i + 1) (ps, cv))).
           0 \<le> connections (fst (inner cfg i (i + 1) (ps, cv)) ! k)"
proof (rule inner_invariant
    [where Q = "\<lambda>j st. \<forall>k<length (fst st). 0 \<le> connections (fst st ! k)"])
  show "\<forall>k<length (fst (ps, cv)). 0 \<le> connections (fst (ps, cv) ! k)"
    using assms by simp
  show "i < i + 1" by simp
  show "\<forall>k<length (fst (pair_step cfg i j st)). 0 \<le> connections (fst (pair_step cfg i j st) ! k)"
    if "\<forall>k<length (fst st). 0 \<le> connections (fst st ! k)" "i < j" "j < length (fst st)"
    for j st
    using that by (rule pair_step_nonneg)
  show "\<forall>k<length (fst st). 0 \<le> connections (fst st ! k)"
    if "\<forall>k<length (fst st). 0 \<le> connections (fst st ! k)"
    for st :: "particle list \<times> shape list"
    using that .
qed

lemma outer_nonneg:
  "\<forall>k<length (fst st). 0 \<le> connections (fst st ! k) \<Longrightarrow>
   \<forall>k<length (fst (outer cfg i st)). 0 \<le> connections (fst (outer cfg i st) ! k)"
proof (induction cfg i st rule: outer.induct)
  case (1 cfg i ps cv)
  show ?case
  proof (cases "i < length ps")
    case False
    with "1.prems" show ?thesis by (subst (1 2) outer.simps) simp
  next
    case True
    show ?thesis
    proof (cases "connections (ps ! i) \<ge> maxConnections cfg")
      case c: True
      show ?thesis
        using "1.IH"(1) [OF True c "1.prems"] True c by (subst (1 2) outer.simps) simp
    next
      case c: False
      have "\<forall>k<length (fst (inner cfg i (i + 1) (ps, cv))).
           0 \<le> connections (fst (inner cfg i (i + 1) (ps, cv)) ! k)"
        using inner_nonneg [of ps cfg i cv] "1.prems" by simp
      then show ?thesis
        using "1.IH"(2) [OF True c] True c by (subst (1 2) outer.simps) simp
    qed
  qed
qed

lemma outer_length: "length (fst (outer cfg i st)) = length (fst st)"
  using outer_keeps [of "\<lambda>p. ()" cfg i st] by (metis length_map)

subsection \<open>The loaded page, evaluated\<close>

lemma upt5: "[0..<5] = [0, 1, 2, 3, 4]"
  by (simp add: upt_rec)

lemma loaded_eq:
  "loaded = \<lparr> motionScale = 1, particles = [pt 0 0, pt 10 0, pt 20 0, pt 30 0, pt 40 0],
       animationFrame = Some 1, isVisible = True,
       lastFrameTime = 1000, motionUtils = Some 1, containerRect = (300, 250),
       canvasAttached = True, canvas = [], frameCounter = 1, callbacks = [1],
       checkMotion = True, visibilityListener = True \<rparr>"
  by (simp add: loaded_def init_def start_def requestAnimationFrame_def declared_def
        Particle_def reset_def CONFIG_def Let_def upt5 row_def pt_def)

lemma pass5:
  "fst (drawConnections CONFIG
     ([pt (1 / 5) 0, pt (51 / 5) 0, pt (101 / 5) 0, pt (151 / 5) 0, pt (201 / 5) 0], cv))
   = [pt (1 / 5) 4, pt (51 / 5) 4, pt (101 / 5) 4, pt (151 / 5) 3, pt (201 / 5) 3]"
  by (simp add: drawConnections_def outer.simps inner.simps getDistance_horizontal Let_def
        pt_def CONFIG_def eval_nat_numeral)

lemma update_pt:
  "0 \<le> u \<Longrightarrow> u \<le> 299 \<Longrightarrow> update 1 2 (pt u c) = pt (u + 1 / 5) 0"
  by (simp add: update_def move_def wrap_def pt_def Let_def)

lemma deltaTime_loaded: "deltaTime 1050 loaded = 2"
  by (simp add: deltaTime_def loaded_eq)

lemma animate_loaded:
  "particles (animate CONFIG 1050 (loaded\<lparr> callbacks := cb, motionUtils := mu \<rparr>))
   = [pt (1 / 5) 4, pt (51 / 5) 4, pt (101 / 5) 4, pt (151 / 5) 3, pt (201 / 5) 3]"
proof -
  let ?s = "loaded\<lparr> callbacks := cb, motionUtils := mu \<rparr>"
  let ?ps = "map (update 1 2) (particles loaded)"
  have "deltaTime 1050 ?s = 2"
    using deltaTime_loaded by (simp add: deltaTime_def)
  moreover have "isVisible ?s" and "particles ?s = particles loaded" and "motionScale ?s = 1"
    by (simp_all add: loaded_eq)
  ultimately have "particles (animate CONFIG 1050 ?s)
      = fst (drawConnections CONFIG (?ps, map (draw CONFIG) ?ps))"
    by (simp add: animate_def Let_def requestAnimationFrame_def case_prod_beta)
  also have "?ps = [pt (1 / 5) 0, pt (51 / 5) 0, pt (101 / 5) 0, pt (151 / 5) 0, pt (201 / 5) 0]"
    by (simp add: loaded_eq update_pt)
  finally show ?thesis by (simp add: pass5)
qed

lemma runFrame_loaded:
  "runFrame cfg t (loaded\<lparr> motionUtils := mu \<rparr>)
   = animate cfg t (loaded\<lparr> callbacks := [], motionUtils := mu \<rparr>)"
  by (simp add: runFrame_def loaded_eq)

section \<open>The claims\<close>

text \<open>
  C1 (degree cap): after the connection pass of every frame, every particle's counter
  satisfies \<open>0 \<le> connections\<close> and \<open>connections \<le> maxConnections\<close>. The script tests
  the outer particle's counter once, before its inner loop, and inside that loop only
  the inner particle's; so the outer particle collects one connection for every later
  neighbour in range. On the page that the script itself builds in a 300 by 250 box
  with the default configuration (cap 3), the first frame leaves three particles with
  four connections.
\<close>

theorem degree_cap_exceeded_in_frame:
  "script CONFIG True (Some 1) (300, 250) row 0 1000 = Some loaded
   \<and> maxConnections CONFIG = 3
   \<and> map connections (particles (runFrame CONFIG 1050 loaded)) = [4, 4, 4, 3, 3]"
proof -
  have "maxConnections CONFIG = 3"
    by (simp add: CONFIG_def)
  moreover have "runFrame CONFIG 1050 loaded
      = animate CONFIG 1050 (loaded\<lparr> callbacks := [], motionUtils := Some 1 \<rparr>)"
    using runFrame_loaded [of CONFIG 1050 "Some 1"] by (simp add: loaded_eq)
  then have "map connections (particles (runFrame CONFIG 1050 loaded)) = [4, 4, 4, 3, 3]"
    by (simp add: animate_loaded pt_def)
  ultimately show ?thesis
    using script_loaded by blast
qed

text \<open>
  C2 (cap 1, fixed positions): particle 0 is connected to its first neighbour in range
  and to no later one, even a closer one. With particles at \<open>(0,0)\<close>, \<open>(50,0)\<close> and
  \<open>(10,0)\<close> and \<open>maxConnections = 1\<close> the pass draws the edge to \<open>(50,0)\<close> first and
  then a second edge from particle 0, to \<open>(10,0)\<close>; particle 0 ends with two
  connections.
\<close>

theorem cap_one_second_edge_drawn:
  "drawConnections (CONFIG\<lparr> maxConnections := 1 \<rparr>) ([pt 0 0, pt 50 0, pt 10 0], [])
   = ([pt 0 2, pt 50 1, pt 10 1],
      [Line ((lineColor CONFIG)\<lparr> alpha := 2 / 10 * (1 - 50 / 120) \<rparr>) 0 0 50 0,
       Line ((lineColor CONFIG)\<lparr> alpha := 2 / 10 * (1 - 10 / 120) \<rparr>) 0 0 10 0])"
  by (simp add: drawConnections_def outer.simps inner.simps getDistance_horizontal Let_def
        pt_def CONFIG_def eval_nat_numeral)

text \<open>
  C3 (motion scale per tick), as amended: in every state a run of the page reaches,
  the closure's \<open>motionScale\<close> is the value the script read when it loaded (\<open>1\<close> without
  \<open>window.motionUtils\<close>), whatever the preference has become since; and a tick moves
  every particle by velocity times that value times \<open>deltaTime\<close>, before the edge
  tests of \<open>update\<close>.
\<close>

theorem tick_displacement_load_time_scale:
  assumes "script cfg0 hasContainer mu rect rnd now0 now = Some s0"
    and "run (cfg0, s0) es = (cfg, s)"
    and "isVisible s" and "i < length (particles s)"
  shows "motionScale s = (case mu of None \<Rightarrow> 1 | Some v \<Rightarrow> v)
     \<and> (let p = particles s ! i;
             dt = deltaTime t s;
             m = p\<lparr> x := x p + speedX p * motionScale s * dt,
                    y := y p + speedY p * motionScale s * dt \<rparr>;
             q = particles (animate cfg t s) ! i
         in x q = x (wrap m) \<and> y q = y (wrap m))"
proof -
  have "motionScale s = motionScale s0"
    using motionScale_run [of "(cfg0, s0)" es] assms(2) by simp
  then have ms: "motionScale s = (case mu of None \<Rightarrow> 1 | Some v \<Rightarrow> v)"
    using motionScale_script [OF assms(1)] by simp
  have "x (particles (animate cfg t s) ! i)
      = x (update (motionScale s) (deltaTime t s) (particles s ! i))"
    by (rule animate_nth [of x, OF _ assms(3,4)]) simp
  moreover have "y (particles (animate cfg t s) ! i)
      = y (update (motionScale s) (deltaTime t s) (particles s ! i))"
    by (rule animate_nth [of y, OF _ assms(3,4)]) simp
  ultimately show ?thesis
    using ms by (simp add: Let_def update_def move_def)
qed

text \<open>
  The amended C3 at work: the page is loaded with the preference on, the user turns
  it off, and the next tick (50 ms later, so \<open>deltaTime = 2\<close>) still moves particle 0
  from \<open>x = 0\<close> to \<open>x = 1/5\<close>.
\<close>

theorem tick_displacement_load_time_scale_witness:
  "script CONFIG True (Some 1) (300, 250) row 0 1000 = Some loaded
   \<and> run (CONFIG, loaded) [Motion False] = (CONFIG, setMotionScale False loaded)
   \<and> isVisible (setMotionScale False loaded)
   \<and> 0 < length (particles (setMotionScale False loaded))
   \<and> motionUtils (setMotionScale False loaded) = Some 0
   \<and> motionScale (setMotionScale False loaded) = 1
   \<and> x (particles (animate CONFIG 1050 (setMotionScale False loaded)) ! 0) = 1 / 5"
proof -
  have s: "setMotionScale False loaded = loaded\<lparr> motionUtils := Some 0 \<rparr>"
    by (simp add: setMotionScale_def loaded_eq)
  have r: "run (CONFIG, loaded) [Motion False] = (CONFIG, setMotionScale False loaded)"
    by (simp add: run_def)
  have v: "isVisible (setMotionScale False loaded)"
    by (simp add: s) (simp add: loaded_eq)
  have l: "0 < length (particles (setMotionScale False loaded))"
    by (simp add: s) (simp add: loaded_eq)
  have f: "motionUtils (setMotionScale False loaded) = Some 0"
    by (simp add: s)
  have p: "particles (setMotionScale False loaded) ! 0 = pt 0 0"
    by (simp add: s) (simp add: loaded_eq)
  have d: "deltaTime 1050 (setMotionScale False loaded) = 2"
    using deltaTime_loaded by (simp add: s deltaTime_def)
  have "motionScale (setMotionScale False loaded) = 1
      \<and> x (particles (animate CONFIG 1050 (setMotionScale False loaded)) ! 0) = 1 / 5"
    using tick_displacement_load_time_scale [OF script_loaded r v l, of 1050]
    by (simp add: Let_def p d) (simp add: pt_def wrap_def)
  with r v l f show ?thesis
    using script_loaded by blast
qed

text \<open>
  Against C3 as stated: the motion signal answers \<open>0\<close> when the frame runs, particle 0
  has speed \<open>1/10\<close> along \<open>x\<close> and \<open>deltaTime\<close> is \<open>2\<close>; the frame moves the particle by
  \<open>1/5\<close>, not by \<open>1/10 * 0 * 2\<close>.
\<close>

theorem motion_signal_not_queried_per_frame:
  "motionUtils (setMotionScale False loaded) = Some 0
   \<and> x (particles (setMotionScale False loaded) ! 0) = 0
   \<and> speedX (particles (setMotionScale False loaded) ! 0) = 1 / 10
   \<and> deltaTime 1050 (setMotionScale False loaded) = 2
   \<and> x (particles (runFrame CONFIG 1050 (setMotionScale False loaded)) ! 0) = 1 / 5
   \<and> x (particles (runFrame CONFIG 1050 (setMotionScale False loaded)) ! 0)
       \<noteq> x (particles (setMotionScale False loaded) ! 0)
          + speedX (particles (setMotionScale False loaded) ! 0) * 0
            * deltaTime 1050 (setMotionScale False loaded)"
proof -
  have s: "setMotionScale False loaded = loaded\<lparr> motionUtils := Some 0 \<rparr>"
    by (simp add: setMotionScale_def loaded_eq)
  have a: "x (particles (runFrame CONFIG 1050 (setMotionScale False loaded)) ! 0) = 1 / 5"
    by (simp add: s runFrame_loaded animate_loaded) (simp add: pt_def)
  have b: "deltaTime 1050 (setMotionScale False loaded) = 2"
    using deltaTime_loaded by (simp add: s deltaTime_def)
  have c: "motionUtils (setMotionScale False loaded) = Some 0"
    by (simp add: s)
  have d: "x (particles (setMotionScale False loaded) ! 0) = 0"
    by (simp add: s) (simp add: loaded_eq pt_def)
  have e: "speedX (particles (setMotionScale False loaded) ! 0) = 1 / 10"
    by (simp add: s) (simp add: loaded_eq pt_def)
  show ?thesis
    unfolding a b c d e by simp
qed

text \<open>
  C4 (destroy and start), as amended: in every state a run of the page reaches,
  \<open>destroy\<close> leaves the module Stopped (no handle, no pending callback) with no
  particles; a \<open>start\<close> after it keeps the particle count at \<open>0\<close> but makes the module
  Running again, with one pending frame callback.
\<close>

theorem destroy_then_start:
  assumes "script cfg0 hasContainer mu rect rnd now0 now = Some s0"
    and "run (cfg0, s0) es = (cfg, s)"
  shows "Stopped (destroy s) \<and> getParticleCount (destroy s) = 0
     \<and> Running (start t (destroy s)) \<and> getParticleCount (start t (destroy s)) = 0
     \<and> callbacks (start t (destroy s)) = [Suc (frameCounter s)]"
proof -
  have "Running s \<or> Stopped s"
    using state_run [of "(cfg0, s0)" es] state_script [OF assms(1)] assms(2) by simp
  then have st: "Stopped (destroy s)"
    by (rule Stopped_destroy)
  then have ru: "Running (start t (destroy s))"
    using state_start [of "destroy s" t] by simp
  have fc: "frameCounter (destroy s) = frameCounter s"
    by (simp add: destroy_def stop_def cancelAnimationFrame_def Let_def split: option.splits)
  have n: "getParticleCount (destroy s) = 0"
    by (simp add: destroy_def Let_def getParticleCount_def)
  from st have "start t (destroy s) = (destroy s)\<lparr> isVisible := True, lastFrameTime := t,
      frameCounter := Suc (frameCounter s), callbacks := [Suc (frameCounter s)],
      animationFrame := Some (Suc (frameCounter s)) \<rparr>"
    by (simp add: Stopped_def start_def requestAnimationFrame_def Let_def fc)
  then have "getParticleCount (start t (destroy s)) = 0
      \<and> callbacks (start t (destroy s)) = [Suc (frameCounter s)]"
    using n by (simp add: getParticleCount_def)
  with st ru n show ?thesis by blast
qed

text \<open>The amended C4 on the loaded page, after one frame.\<close>

theorem destroy_then_start_witness:
  "script CONFIG True (Some 1) (300, 250) row 0 1000 = Some loaded
   \<and> run (CONFIG, loaded) [Frame 1050] = (CONFIG, runFrame CONFIG 1050 loaded)
   \<and> Stopped (destroy (runFrame CONFIG 1050 loaded))
   \<and> Running (start 2000 (destroy (runFrame CONFIG 1050 loaded)))
   \<and> getParticleCount (start 2000 (destroy (runFrame CONFIG 1050 loaded))) = 0
   \<and> callbacks (start 2000 (destroy (runFrame CONFIG 1050 loaded)))
       = [Suc (frameCounter (runFrame CONFIG 1050 loaded))]"
proof -
  have r: "run (CONFIG, loaded) [Frame 1050] = (CONFIG, runFrame CONFIG 1050 loaded)"
    by (simp add: run_def)
  show ?thesis
    using destroy_then_start [OF script_loaded r, of 2000] script_loaded r by blast
qed

text \<open>
  Against C4 as stated: on the loaded page, \<open>destroy\<close> leaves no pending callback and
  \<open>start\<close> then schedules the callback with handle \<open>2\<close>.
\<close>

theorem start_after_destroy_schedules:
  "getParticleCount (destroy loaded) = 0
   \<and> callbacks (destroy loaded) = []
   \<and> getParticleCount (start 2000 (destroy loaded)) = 0
   \<and> callbacks (start 2000 (destroy loaded)) = [2]
   \<and> animationFrame (start 2000 (destroy loaded)) = Some 2
   \<and> start 2000 (destroy loaded) \<noteq> destroy loaded"
proof -
  have d: "destroy loaded = loaded\<lparr> particles := [], animationFrame := None, isVisible := False,
      canvasAttached := False, callbacks := [] \<rparr>"
    by (simp add: destroy_def stop_def cancelAnimationFrame_def Let_def loaded_eq)
  have c: "callbacks (start 2000 (destroy loaded)) = [2]"
    by (simp add: d start_def requestAnimationFrame_def Let_def) (simp add: loaded_eq)
  have "callbacks (destroy loaded) = []"
    by (simp add: d)
  with c have "start 2000 (destroy loaded) \<noteq> destroy loaded"
    by auto
  moreover have "getParticleCount (destroy loaded) = 0 \<and> callbacks (destroy loaded) = []
     \<and> getParticleCount (start 2000 (destroy loaded)) = 0
     \<and> animationFrame (start 2000 (destroy loaded)) = Some 2"
    by (simp add: d start_def requestAnimationFrame_def Let_def getParticleCount_def)
       (simp add: loaded_eq)
  ultimately show ?thesis using c by blast
qed

text \<open>
  C5 (position bound), as amended: for a particle made for a box of non-negative
  width and height, \<open>update\<close> leaves the position inside the closed box,
  \<open>0 \<le> x \<le> canvasWidth\<close> and \<open>0 \<le> y \<le> canvasHeight\<close>, for every motion scale and
  every \<open>deltaTime\<close>.
\<close>

theorem update_position_bounds:
  assumes "0 \<le> canvasWidth p" and "0 \<le> canvasHeight p"
  shows "0 \<le> x (update ms dt p) \<and> x (update ms dt p) \<le> canvasWidth p
       \<and> 0 \<le> y (update ms dt p) \<and> y (update ms dt p) \<le> canvasHeight p"
  using update_inside [OF assms, of ms dt] update_box [of ms dt p] by simp

text \<open>The amended C5 for a particle on the right edge that moves right: it lands on \<open>0\<close>.\<close>

theorem update_position_bounds_witness:
  "0 \<le> canvasWidth (pt 300 0) \<and> 0 \<le> canvasHeight (pt 300 0)
   \<and> x (update 1 1 (pt 300 0)) = 0
   \<and> 0 \<le> x (update 1 1 (pt 300 0)) \<and> x (update 1 1 (pt 300 0)) \<le> canvasWidth (pt 300 0)
   \<and> 0 \<le> y (update 1 1 (pt 300 0)) \<and> y (update 1 1 (pt 300 0)) \<le> canvasHeight (pt 300 0)"
proof -
  have h: "0 \<le> canvasWidth (pt 300 0)" "0 \<le> canvasHeight (pt 300 0)"
    by (simp_all add: pt_def)
  have "x (update 1 1 (pt 300 0)) = 0"
    by (simp add: pt_def update_def move_def wrap_def Let_def)
  then show ?thesis
    using update_position_bounds [OF h, of 1 1] h by blast
qed

text \<open>
  Against C5 as stated: a particle at \<open>x = 0\<close> that moves left (speed \<open>1/10\<close>, motion
  scale \<open>1\<close>, \<open>deltaTime = -1\<close>) is put on \<open>x = canvasWidth = 300\<close>, which is not below
  the width.
\<close>

theorem update_reaches_far_edge:
  "canvasWidth (pt 0 0) = 300 \<and> x (update 1 (- 1) (pt 0 0)) = 300
   \<and> \<not> x (update 1 (- 1) (pt 0 0)) < canvasWidth (pt 0 0)"
  by (simp add: pt_def update_def move_def wrap_def Let_def)

text \<open>
  C6 (zero-motion freeze): for every particle of every state a run of the page
  reaches, whatever its velocity, \<open>update\<close> with motion scale \<open>0\<close> leaves the position
  exactly where it was, for every \<open>deltaTime\<close>. (The run's random numbers lie in
  \<open>[0, 1)\<close> and its measured boxes have no negative side, so that every particle lies
  in its box.)
\<close>

theorem update_zero_motion_freezes:
  assumes "script cfg0 hasContainer mu rect rnd now0 now = Some s0"
    and "0 \<le> fst rect" and "0 \<le> snd rect" and "unit_range rnd"
    and "list_all plausible es"
    and "run (cfg0, s0) es = (cfg, s)"
    and "i < length (particles s)"
  shows "x (update 0 dt (particles s ! i)) = x (particles s ! i)
     \<and> y (update 0 dt (particles s ! i)) = y (particles s ! i)"
proof -
  have "boxed s"
    using boxed_run [of "(cfg0, s0)" es] boxed_script [OF assms(1-4)] assms(5,6) by simp
  then have "inBox (particles s ! i)"
    using assms(7) by (simp add: boxed_def list_all_length)
  then show ?thesis
    by (simp add: inBox_def update_def move_def wrap_def Let_def)
qed

text \<open>
  C6 for particle 1 of the loaded page after one frame: it is at \<open>x = 51/5\<close> with speed
  \<open>1/10\<close>, and \<open>update\<close> with motion scale \<open>0\<close> and \<open>deltaTime = 2\<close> leaves it there.
\<close>

theorem update_zero_motion_freezes_witness:
  "script CONFIG True (Some 1) (300, 250) row 0 1000 = Some loaded
   \<and> (0::real) \<le> fst (300, 250) \<and> (0::real) \<le> snd (300, 250) \<and> unit_range row
   \<and> list_all plausible [Frame 1050]
   \<and> run (CONFIG, loaded) [Frame 1050] = (CONFIG, runFrame CONFIG 1050 loaded)
   \<and> 1 < length (particles (runFrame CONFIG 1050 loaded))
   \<and> particles (runFrame CONFIG 1050 loaded) ! 1 = pt (51 / 5) 4
   \<and> speedX (pt (51 / 5) 4) = 1 / 10
   \<and> x (update 0 2 (pt (51 / 5) 4)) = x (pt (51 / 5) 4)
   \<and> y (update 0 2 (pt (51 / 5) 4)) = y (pt (51 / 5) 4)"
proof -
  have b: "(0::real) \<le> fst (300, 250)" "(0::real) \<le> snd (300, 250)"
    by simp_all
  have e: "list_all plausible [Frame 1050]"
    by simp
  have r: "run (CONFIG, loaded) [Frame 1050] = (CONFIG, runFrame CONFIG 1050 loaded)"
    by (simp add: run_def)
  have "runFrame CONFIG 1050 loaded
      = animate CONFIG 1050 (loaded\<lparr> callbacks := [], motionUtils := Some 1 \<rparr>)"
    using runFrame_loaded [of CONFIG 1050 "Some 1"] by (simp add: loaded_eq)
  then have ps: "particles (runFrame CONFIG 1050 loaded)
      = [pt (1 / 5) 4, pt (51 / 5) 4, pt (101 / 5) 4, pt (151 / 5) 3, pt (201 / 5) 3]"
    by (simp add: animate_loaded)
  have l: "1 < length (particles (runFrame CONFIG 1050 loaded))"
    by (simp add: ps)
  have n: "particles (runFrame CONFIG 1050 loaded) ! 1 = pt (51 / 5) 4"
    by (simp add: ps)
  have v: "speedX (pt (51 / 5) 4) = 1 / 10"
    by (simp add: pt_def)
  show ?thesis
    using update_zero_motion_freezes [OF script_loaded b row_unit_range e r l, of 2]
      script_loaded b row_unit_range e r l n v
    by simp
qed

text \<open>
  C7 (density scaling): for a container of width \<open>w\<close> and height \<open>h\<close> (a measured box,
  so neither is negative) and a configured maximum that is a count, \<open>init\<close> creates
  exactly \<open>min \<lfloor>w * h / 15000\<rfloor> particleCount\<close> particles.
\<close>

theorem init_particle_count:
  assumes "containerRect s = (w, h)" and "0 \<le> w" and "0 \<le> h" and "0 \<le> particleCount cfg"
  shows "int (getParticleCount (init cfg rnd s)) = min \<lfloor>w * h / 15000\<rfloor> (particleCount cfg)"
  using assms by (simp add: init_def getParticleCount_def Let_def)

text \<open>
  C7 with the default maximum \<open>50\<close>: at the threshold (area 750000), just below it
  and above it.
\<close>

theorem init_particle_count_witness:
  "containerRect (declared CONFIG 1 None (1000, 750) 0) = (1000, 750)
   \<and> (0::real) \<le> 1000 \<and> (0::real) \<le> 750 \<and> 0 \<le> particleCount CONFIG
   \<and> \<lfloor>(1000::real) * 750 / 15000\<rfloor> = 50 \<and> particleCount CONFIG = 50
   \<and> getParticleCount (init CONFIG row (declared CONFIG 1 None (1000, 750) 0)) = 50
   \<and> getParticleCount (init CONFIG row (declared CONFIG 1 None (1000, 749) 0)) = 49
   \<and> getParticleCount (init CONFIG row (declared CONFIG 1 None (1000, 900) 0)) = 50"
  using init_particle_count [of "declared CONFIG 1 None (1000, 750) 0" 1000 750 CONFIG row]
    init_particle_count [of "declared CONFIG 1 None (1000, 749) 0" 1000 749 CONFIG row]
    init_particle_count [of "declared CONFIG 1 None (1000, 900) 0" 1000 900 CONFIG row]
  by (simp add: declared_def CONFIG_def)

text \<open>
  C8 (two particles): with \<open>connectionDistance = 120\<close> and \<open>maxConnections = 3\<close>, the
  connection pass over exactly two particles at \<open>(0,0)\<close> and \<open>(50,0)\<close>, their counters
  reset by \<open>update\<close>, paints exactly one line, from \<open>(0,0)\<close> to \<open>(50,0)\<close>, with stroke
  alpha \<open>lineColor.a * (1 - 50 / 120)\<close>, and counts one connection for each.
\<close>

theorem two_particles_one_edge:
  "drawConnections (cfg\<lparr> connectionDistance := 120, maxConnections := 3 \<rparr>)
     ([p\<lparr> x := 0, y := 0, connections := 0 \<rparr>, q\<lparr> x := 50, y := 0, connections := 0 \<rparr>], cv)
   = ([p\<lparr> x := 0, y := 0, connections := 1 \<rparr>, q\<lparr> x := 50, y := 0, connections := 1 \<rparr>],
      cv @ [Line ((lineColor cfg)\<lparr> alpha := alpha (lineColor cfg) * (1 - 50 / 120) \<rparr>) 0 0 50 0])"
  by (simp add: drawConnections_def outer.simps inner.simps getDistance_horizontal Let_def)

text \<open>
  C9 (lifecycle idempotence): every state a run of the page reaches is Running or
  Stopped. In a Running state \<open>start\<close> changes nothing, so no second callback is
  scheduled; in a Stopped state \<open>stop\<close> changes nothing; and in any reached state a
  second \<open>start\<close> right after a \<open>start\<close>, or a second \<open>stop\<close> right after a \<open>stop\<close>,
  changes nothing.
\<close>

theorem lifecycle_idempotence:
  assumes "script cfg0 hasContainer mu rect rnd now0 now = Some s0"
    and "run (cfg0, s0) es = (cfg, s)"
  shows "(Running s \<or> Stopped s)
     \<and> (Running s \<longrightarrow> start t s = s)
     \<and> (Stopped s \<longrightarrow> stop s = s)
     \<and> start t' (start t s) = start t s
     \<and> stop (stop s) = stop s"
proof -
  have rs: "Running s \<or> Stopped s"
    using state_run [of "(cfg0, s0)" es] state_script [OF assms(1)] assms(2) by simp
  have a: "Running s \<Longrightarrow> start t s = s"
    using Running_truthy [of s] by (simp add: start_def)
  have b: "Stopped s \<Longrightarrow> stop s = s"
    by (simp add: Stopped_def stop_def Let_def)
  have "Running (start t s)"
    using rs by (rule state_start)
  then have c: "start t' (start t s) = start t s"
    using Running_truthy [of "start t s"] by (simp add: start_def [of t'])
  have "Stopped (stop s)"
    using rs by (rule Stopped_stop)
  then have d: "stop (stop s) = stop s"
    by (simp add: Stopped_def stop_def [of "stop s"] Let_def)
  from rs a b c d show ?thesis by blast
qed

text \<open>C9 on the loaded page (Running) and on the same page after \<open>stop\<close> (Stopped).\<close>

theorem lifecycle_idempotence_witness:
  "script CONFIG True (Some 1) (300, 250) row 0 1000 = Some loaded
   \<and> run (CONFIG, loaded) [] = (CONFIG, loaded)
   \<and> run (CONFIG, loaded) [Stop] = (CONFIG, stop loaded)
   \<and> Running loaded \<and> start 2000 loaded = loaded
   \<and> Stopped (stop loaded) \<and> stop (stop loaded) = stop loaded"
proof -
  have r0: "run (CONFIG, loaded) [] = (CONFIG, loaded)"
    by (simp add: run_def)
  have r1: "run (CONFIG, loaded) [Stop] = (CONFIG, stop loaded)"
    by (simp add: run_def)
  have ru: "Running loaded"
    using script_loaded by (rule state_script)
  then have st: "Stopped (stop loaded)"
    by (simp add: Stopped_stop)
  from ru st show ?thesis
    using lifecycle_idempotence [OF script_loaded r0, of 2000 2000]
      lifecycle_idempotence [OF script_loaded r1, of 2000 2000] script_loaded r0 r1
    by blast
qed

text \<open>
  C10 (\<open>deltaTime\<close> has no lower bound): \<open>deltaTime\<close> is at most \<open>2\<close> and goes below every
  bound \<open>B\<close>; when \<open>currentTime\<close> lies before \<open>lastFrameTime\<close> it is negative, and then,
  with a positive motion scale, the tick moves every particle against its velocity in
  each coordinate whose speed is not \<open>0\<close> (the position before the edge tests of
  \<open>update\<close>, which the tick then applies).
\<close>

theorem deltaTime_no_lower_bound:
  "deltaTime t s \<le> 2
   \<and> (\<exists>t'. deltaTime t' s < B)
   \<and> (t < lastFrameTime s \<longrightarrow>
        deltaTime t s < 0
        \<and> (isVisible s \<and> 0 < motionScale s \<longrightarrow>
             (\<forall>i < length (particles s).
                let p = particles s ! i;
                    dt = deltaTime t s;
                    m = p\<lparr> x := x p + speedX p * motionScale s * dt,
                           y := y p + speedY p * motionScale s * dt \<rparr>;
                    q = particles (animate cfg t s) ! i
                in x q = x (wrap m) \<and> y q = y (wrap m)
                   \<and> (0 < speedX p \<longrightarrow> x m < x p) \<and> (speedX p < 0 \<longrightarrow> x p < x m)
                   \<and> (0 < speedY p \<longrightarrow> y m < y p) \<and> (speedY p < 0 \<longrightarrow> y p < y m))))"
proof -
  have le: "deltaTime t s \<le> 2"
    by (simp add: deltaTime_def)
  have "deltaTime (lastFrameTime s + (1667 / 100) * (min B 0 - 1)) s < B"
    by (simp add: deltaTime_def min_def)
  then have ex: "\<exists>t'. deltaTime t' s < B" ..
  have neg: "deltaTime t s < 0" if "t < lastFrameTime s"
    using that by (simp add: deltaTime_def min_def divide_neg_pos)
  have disp: "let p = particles s ! i;
                  dt = deltaTime t s;
                  m = p\<lparr> x := x p + speedX p * motionScale s * dt,
                         y := y p + speedY p * motionScale s * dt \<rparr>;
                  q = particles (animate cfg t s) ! i
              in x q = x (wrap m) \<and> y q = y (wrap m)
                 \<and> (0 < speedX p \<longrightarrow> x m < x p) \<and> (speedX p < 0 \<longrightarrow> x p < x m)
                 \<and> (0 < speedY p \<longrightarrow> y m < y p) \<and> (speedY p < 0 \<longrightarrow> y p < y m)"
    if lt: "t < lastFrameTime s" and v: "isVisible s" and ms: "0 < motionScale s"
      and i: "i < length (particles s)" for i
  proof -
    have k: "motionScale s * deltaTime t s < 0"
      using neg [OF lt] ms by (simp add: mult_pos_neg)
    have sg: "(0 < c \<longrightarrow> c * motionScale s * deltaTime t s < 0)
        \<and> (c < 0 \<longrightarrow> 0 < c * motionScale s * deltaTime t s)" for c :: real
      using k by (simp add: mult.assoc mult_pos_neg mult_neg_neg)
    have "x (particles (animate cfg t s) ! i)
        = x (update (motionScale s) (deltaTime t s) (particles s ! i))"
      by (rule animate_nth [of x, OF _ v i]) simp
    moreover have "y (particles (animate cfg t s) ! i)
        = y (update (motionScale s) (deltaTime t s) (particles s ! i))"
      by (rule animate_nth [of y, OF _ v i]) simp
    ultimately show ?thesis
      using sg [of "speedX (particles s ! i)"] sg [of "speedY (particles s ! i)"]
      by (simp add: Let_def update_def move_def)
  qed
  from le ex neg disp show ?thesis by blast
qed

text \<open>
  C10 on the loaded page, whose \<open>lastFrameTime\<close> is \<open>1000\<close>, for a frame with the time
  stamp \<open>0\<close>: \<open>deltaTime\<close> is negative and particle 0, at \<open>x = 0\<close> with a positive speed,
  is pushed below \<open>0\<close> and lands on the right edge.
\<close>

theorem deltaTime_no_lower_bound_witness:
  "(0::real) < lastFrameTime loaded \<and> isVisible loaded \<and> 0 < motionScale loaded
   \<and> 0 < length (particles loaded) \<and> 0 < speedX (particles loaded ! 0)
   \<and> deltaTime 0 loaded < 0
   \<and> x (particles loaded ! 0) = 0
   \<and> x (particles (animate CONFIG 0 loaded) ! 0) = 300"
proof -
  have h: "(0::real) < lastFrameTime loaded" "isVisible loaded" "0 < motionScale loaded"
      "0 < length (particles loaded)"
    by (simp_all add: loaded_eq)
  have p: "particles loaded ! 0 = pt 0 0" "motionScale loaded = 1"
    by (simp_all add: loaded_eq)
  have d: "deltaTime 0 loaded = - (100000 / 1667)"
    by (simp add: deltaTime_def loaded_eq)
  have "deltaTime 0 loaded < 0 \<and> x (particles (animate CONFIG 0 loaded) ! 0) = 300"
    using deltaTime_no_lower_bound [of 0 loaded 0 CONFIG] h
    by (simp add: Let_def p d) (simp add: pt_def wrap_def)
  moreover have "0 < speedX (particles loaded ! 0) \<and> x (particles loaded ! 0) = 0"
    by (simp add: p pt_def)
  ultimately show ?thesis using h by blast
qed

section \<open>Further properties\<close>

text \<open>
  What the connection pass does guarantee: with a cap that is not negative, after the
  connection pass of a frame over \<open>n\<close> particles the counter of particle \<open>k\<close> is not
  negative and is at most \<open>maxConnections + max 0 (n - k - 2)\<close>; so the last two
  particles respect the cap, and an earlier one passes it by at most \<open>n - k - 2\<close>.
\<close>

theorem frame_degree_bound:
  assumes "isVisible s" and "0 \<le> maxConnections cfg" and "k < length (particles s)"
  shows "0 \<le> connections (particles (animate cfg t s) ! k)
     \<and> connections (particles (animate cfg t s) ! k)
         \<le> maxConnections cfg + max 0 (int (length (particles s)) - int k - 2)"
proof -
  let ?ps1 = "map (update (motionScale s) (deltaTime t s)) (particles s)"
  let ?st = "(?ps1, map (draw cfg) ?ps1)"
  have p: "particles (animate cfg t s) = fst (outer cfg 0 ?st)"
    using assms(1)
    by (simp add: animate_def Let_def requestAnimationFrame_def case_prod_beta
          drawConnections_def)
  have z: "\<forall>k<length ?ps1. connections (?ps1 ! k) = 0"
    by (simp add: update_def)
  have n: "length (fst (outer cfg 0 ?st)) = length (particles s)"
    by (simp add: outer_length)
  have "\<forall>k<length (fst ?st). 0 \<le> connections (fst ?st ! k)"
    using z by simp
  then have lo: "\<forall>k<length (fst (outer cfg 0 ?st)). 0 \<le> connections (fst (outer cfg 0 ?st) ! k)"
    by (rule outer_nonneg)
  have "pass_bound cfg 0 (fst ?st)"
    using z assms(2) by (simp add: pass_bound_def Let_def)
  then have "pass_bound cfg (length (fst ?st)) (fst (outer cfg 0 ?st))"
    by (rule outer_bound)
  then have hi: "\<forall>k<length (particles s). connections (fst (outer cfg 0 ?st) ! k)
      \<le> maxConnections cfg + max 0 (int (length (particles s)) - int k - 2)"
    using n by (simp add: pass_bound_def Let_def)
  from lo hi n assms(3) show ?thesis
    unfolding p by simp
qed


text \<open>The bound on the first frame of the loaded page: particle 0 of five, cap 3, bound 6.\<close>

theorem frame_degree_bound_witness:
  "isVisible loaded \<and> 0 \<le> maxConnections CONFIG \<and> 0 < length (particles loaded)
   \<and> length (particles loaded) = 5 \<and> maxConnections CONFIG = 3
   \<and> 0 \<le> connections (particles (animate CONFIG 1050 loaded) ! 0)
   \<and> connections (particles (animate CONFIG 1050 loaded) ! 0) \<le> 6"
proof -
  have h: "isVisible loaded" "0 \<le> maxConnections CONFIG" "0 < length (particles loaded)"
    by (simp_all add: loaded_eq CONFIG_def)
  have n: "length (particles loaded) = 5" "maxConnections CONFIG = 3"
    by (simp_all add: loaded_eq CONFIG_def)
  show ?thesis
    using frame_degree_bound [OF h, of 1050] h n by simp
qed

text \<open>
  Particles stay in their boxes over a whole run: in every state that the script
  followed by any sequence of API calls, listener events and frames reaches, the
  container's box has no negative side and every particle lies in the closed box it
  was made for, when \<open>Math.random()\<close> answers in \<open>[0, 1)\<close> and measured boxes have no
  negative side.
\<close>

theorem run_particles_in_box:
  assumes "script cfg0 hasContainer mu rect rnd now0 now = Some s0"
    and "0 \<le> fst rect" and "0 \<le> snd rect" and "unit_range rnd"
    and "list_all plausible es"
    and "run (cfg0, s0) es = (cfg, s)"
  shows "boxed s"
  using boxed_run [of "(cfg0, s0)" es] boxed_script [OF assms(1-4)] assms(5,6) by simp

text \<open>The loaded page after a frame and a resize to a 600 by 500 box.\<close>

theorem run_particles_in_box_witness:
  "script CONFIG True (Some 1) (300, 250) row 0 1000 = Some loaded
   \<and> (0::real) \<le> fst (300, 250) \<and> (0::real) \<le> snd (300, 250) \<and> unit_range row
   \<and> list_all plausible [Frame 1050, Resize (600, 500) row 2000]
   \<and> boxed (snd (run (CONFIG, loaded) [Frame 1050, Resize (600, 500) row 2000]))"
proof -
  have b: "(0::real) \<le> fst (300, 250)" "(0::real) \<le> snd (300, 250)"
    by simp_all
  have e: "list_all plausible [Frame 1050, Resize (600, 500) row 2000]"
    by (simp add: row_unit_range)
  obtain c t where r: "run (CONFIG, loaded) [Frame 1050, Resize (600, 500) row 2000] = (c, t)"
    by (cases "run (CONFIG, loaded) [Frame 1050, Resize (600, 500) row 2000]")
  have "boxed t"
    using run_particles_in_box [OF script_loaded b row_unit_range e r] .
  with r have "boxed (snd (run (CONFIG, loaded) [Frame 1050, Resize (600, 500) row 2000]))"
    by simp
  then show ?thesis
    using script_loaded b row_unit_range e by blast
qed

end
